theory Spec2Isabelle
  imports Main "HOL-Library.Word"
begin

unbundle bit_operations_syntax

section \<open>The backup service: data model\<close>

text \<open>
  A shallow embedding of \<^verbatim>\<open>BackupsService\<close> (the class with \<^verbatim>\<open>exportBackup\<close> and
  \<^verbatim>\<open>importBackup\<close>). A stream is modelled by its whole content: a \<^verbatim>\<open>Readable\<close> is
  either the byte sequence it yields before it ends, or the error it emits. A transform
  stage is a function on that content, and \<^verbatim>\<open>pipeline(...)\<close> is the composition of its
  stages, rejecting with the first error. When several stages of one pipeline would fail,
  the composition reports the error of the most upstream one, while a streaming pipeline
  reports the one that fails first in time, which may be a downstream stage failing on
  data already passed on. Nothing below depends on which error a failing pipeline reports.
\<close>

type_synonym byte = "8 word"
type_synonym bytes = "byte list"

text \<open>A JavaScript \<^verbatim>\<open>Error\<close> with its message.\<close>

datatype error = Error string

type_synonym readable = "error + bytes"

text \<open>
  A \<^verbatim>\<open>Writable\<close> at the end of a pipeline: given everything that is written to it, it
  either finishes (\<open>None\<close>) or emits an error.
\<close>

type_synonym writable = "bytes \<Rightarrow> error option"

text \<open>
  What the consumer at the end of the data pipeline has seen when the operation settles:
  \<^item> \<open>Untouched\<close>: the pipeline that feeds it was never started;
  \<^item> \<open>TornDown\<close>: the pipeline was started and failed; streams are destroyed, and an
    unspecified part of the data may have reached the consumer;
  \<^item> \<open>Drained x\<close>: the pipeline ran to its end and the consumer received exactly \<open>x\<close>.
\<close>

datatype 'a outcome = Untouched | TornDown | Drained 'a

text \<open>
  The fields of \<^verbatim>\<open>BackupsService\<close>, and with them the number of bytes this process has
  drawn from the system's random source so far.
\<close>

record state =
  isStarted :: bool
  isRunning :: bool
  drawn :: nat

text \<open>
  Everything the two operations call that is not part of the service: the primitives of
  Node's \<^verbatim>\<open>zlib\<close> and \<^verbatim>\<open>crypto\<close> modules, and the collaborators of the repository whose
  behaviour is outside the transport envelope (key derivation, the record streams, the
  padding rule, the record framing). They are parameters of the model.
  \<^item> \<open>getKeyMaterial\<close>: the pair \<^verbatim>\<open>{ aesKey, macKey }\<close>, or the error the derivation throws;
  \<^item> \<open>backupExportStream\<close>: the bytes \<^verbatim>\<open>new BackupExportStream()\<close> yields once run;
  \<^item> \<open>entropy\<close>: the output of the random source, byte by byte;
  \<^item> \<open>createGzip\<close>, \<open>appendPaddingStream\<close>: the compression and padding transforms;
  \<^item> \<open>createCipheriv\<close>: \<^verbatim>\<open>createCipheriv(CipherType.AES256CBC, key, iv)\<close>, which throws
    when it is constructed on a bad key or IV, and otherwise is a transform;
  \<^item> \<open>hmacSha256\<close>: the digest of \<^verbatim>\<open>createHmac(HashType.size256, key)\<close> over the data
    it was updated with;
  \<^item> \<open>createDecipheriv\<close>: decryption under a key and an IV, which may fail;
  \<^item> \<open>createGunzip\<close>, \<open>delimitedStream\<close>: decompression and reframing, which may fail;
  \<^item> \<open>backupImportStream\<close>: the record sink \<^verbatim>\<open>new BackupImportStream()\<close>.
\<close>

record env =
  getKeyMaterial :: "error + (bytes \<times> bytes)"
  backupExportStream :: readable
  entropy :: "nat \<Rightarrow> byte"
  createGzip :: "bytes \<Rightarrow> bytes"
  appendPaddingStream :: "bytes \<Rightarrow> bytes"
  createCipheriv :: "bytes \<Rightarrow> bytes \<Rightarrow> error + (bytes \<Rightarrow> bytes)"
  hmacSha256 :: "bytes \<Rightarrow> bytes \<Rightarrow> bytes"
  createDecipheriv :: "bytes \<Rightarrow> bytes \<Rightarrow> bytes \<Rightarrow> error + bytes"
  createGunzip :: "bytes \<Rightarrow> error + bytes"
  delimitedStream :: "bytes \<Rightarrow> error + bytes list"
  backupImportStream :: "bytes list \<Rightarrow> error option"

definition IV_LENGTH :: nat where
  "IV_LENGTH = 16"

text \<open>
  Modelled from the spec: the length of the MAC tag, a constant of the attachment
  crypto module (``always exactly 32 bytes, always the last 32 bytes of the envelope'').
\<close>

definition MAC_LENGTH :: nat where
  "MAC_LENGTH = 32"

section \<open>Stages\<close>

text \<open>Sequencing of two stages that may fail.\<close>

definition andThen :: "error + 'a \<Rightarrow> ('a \<Rightarrow> error + 'b) \<Rightarrow> error + 'b" where
  "andThen r f = (case r of Inl e \<Rightarrow> Inl e | Inr x \<Rightarrow> f x)"

text \<open>\<^verbatim>\<open>randomBytes(n)\<close>: the next \<open>n\<close> bytes of the random source.\<close>

definition randomBytes :: "env \<Rightarrow> nat \<Rightarrow> state \<Rightarrow> bytes \<times> state" where
  "randomBytes env n s =
     (map (entropy env) [drawn s ..< drawn s + n], s\<lparr>drawn := drawn s + n\<rparr>)"

text \<open>
  An HMAC accumulator: its key and the data it has been updated with so far.
  \<^verbatim>\<open>createHmac\<close> makes an empty one, \<^verbatim>\<open>hmac.update\<close> appends, \<^verbatim>\<open>hmac.digest()\<close>
  is the tag of what was accumulated.
\<close>

type_synonym hmac = "bytes \<times> bytes"

definition createHmac :: "bytes \<Rightarrow> hmac" where
  "createHmac key = (key, [])"

definition update :: "hmac \<Rightarrow> bytes \<Rightarrow> hmac" where
  "update h chunk = (fst h, snd h @ chunk)"

definition digest :: "env \<Rightarrow> hmac \<Rightarrow> bytes" where
  "digest env h = hmacSha256 env (fst h) (snd h)"

text \<open>
  Modelled from the spec: \<^verbatim>\<open>strictAssert\<close> of \<^verbatim>\<open>util/assert\<close>, which throws an error
  with the given message when the condition is false.
\<close>

definition strictAssert :: "bool \<Rightarrow> string \<Rightarrow> error + unit" where
  "strictAssert condition message = (if condition then Inr () else Inl (Error message))"

text \<open>
  Modelled from the spec: \<^verbatim>\<open>constantTimeEqual\<close> of \<^verbatim>\<open>Crypto\<close>, the comparison of two
  tags. Only its result is modelled, not its running time.
\<close>

definition constantTimeEqual :: "bytes \<Rightarrow> bytes \<Rightarrow> bool" where
  "constantTimeEqual left right = (left = right)"

text \<open>
  Modelled from the spec: \<^verbatim>\<open>prependStream(iv)\<close> of \<^verbatim>\<open>util/prependStream\<close>, which puts
  the IV in cleartext in front of the ciphertext stream.
\<close>

definition prependStream :: "bytes \<Rightarrow> bytes \<Rightarrow> bytes" where
  "prependStream iv data = iv @ data"

text \<open>
  Modelled from the spec: \<^verbatim>\<open>appendMacStream(macKey)\<close> of \<^verbatim>\<open>util/appendMacStream\<close>,
  which ``computes HMAC-SHA-256 incrementally over every byte written upstream and
  appends the final tag once the upstream stream ends''.
\<close>

definition appendMacStream :: "env \<Rightarrow> bytes \<Rightarrow> bytes \<Rightarrow> bytes" where
  "appendMacStream env macKey data = data @ digest env (update (createHmac macKey) data)"

text \<open>
  Modelled from the spec: \<^verbatim>\<open>getMacAndUpdateHmac(hmac, onTheirMac)\<close> of
  \<^verbatim>\<open>AttachmentCrypto\<close>, the stage that mirrors \<open>appendMacStream\<close> on decode. ``The final
  32 bytes of the stream are intercepted as theirMac rather than being hashed as
  payload''; every byte before them updates the accumulator and is passed downstream.
  For a stream that ends before 32 bytes the spec has only the error kind
  \<^verbatim>\<open>MissingAuthentication\<close>, ``stream ended before a MAC tag was observed'': here such
  a stream has no tag, so the callback is not invoked, and nothing is hashed or passed on.
  The result is the updated accumulator, the bytes passed downstream and the argument of
  the callback, if any.
\<close>

definition getMacAndUpdateHmac :: "hmac \<Rightarrow> bytes \<Rightarrow> hmac \<times> bytes \<times> bytes option" where
  "getMacAndUpdateHmac h data =
     (let n = length data - MAC_LENGTH;
          knownNonMacBytes = take n data
      in (update h knownNonMacBytes, knownNonMacBytes,
          if length data < MAC_LENGTH then None else Some (drop n data)))"

text \<open>
  Modelled from the spec: \<^verbatim>\<open>getIvAndDecipher(aesKey)\<close> of \<^verbatim>\<open>AttachmentCrypto\<close>, which
  ``extracts the IV from the stream prefix'' and decrypts the rest with the cipher key.
\<close>

definition getIvAndDecipher :: "env \<Rightarrow> bytes \<Rightarrow> bytes \<Rightarrow> error + bytes" where
  "getIvAndDecipher env aesKey data =
     createDecipheriv env aesKey (take IV_LENGTH data) (drop IV_LENGTH data)"

section \<open>exportBackup\<close>

text \<open>
  The \<^verbatim>\<open>try\<close> block of \<^verbatim>\<open>exportBackup\<close>: key material, the record stream, a fresh IV,
  and the pipeline record stream, gzip, padding, cipher, prepended IV, appended MAC,
  sink. The cipher is constructed while the arguments of \<^verbatim>\<open>pipeline\<close> are evaluated, so
  an error there comes before the pipeline exists.
\<close>

definition exportBackup_try ::
  "env \<Rightarrow> writable \<Rightarrow> state \<Rightarrow> (error + unit) \<times> bytes outcome \<times> state" where
  "exportBackup_try env sink s =
     (case getKeyMaterial env of
        Inl e \<Rightarrow> (Inl e, Untouched, s)
      | Inr (aesKey, macKey) \<Rightarrow>
          (case randomBytes env IV_LENGTH s of (iv, s1) \<Rightarrow>
            (case createCipheriv env aesKey iv of
               Inl e \<Rightarrow> (Inl e, Untouched, s1)
             | Inr cipher \<Rightarrow>
                 (case backupExportStream env of
                    Inl e \<Rightarrow> (Inl e, TornDown, s1)
                  | Inr recordStream \<Rightarrow>
                      (let written =
                             appendMacStream env macKey
                               (prependStream iv
                                 (cipher
                                   (appendPaddingStream env
                                     (createGzip env recordStream))))
                       in case sink written of
                            Some e \<Rightarrow> (Inl e, TornDown, s1)
                          | None \<Rightarrow> (Inr (), Drained written, s1))))))"

text \<open>
  \<^verbatim>\<open>exportBackup(sink)\<close>: the assertion on the running flag is outside the \<^verbatim>\<open>try\<close>; the
  flag is set, the \<^verbatim>\<open>try\<close> block runs, and \<^verbatim>\<open>finally\<close> clears the flag.
\<close>

definition exportBackup ::
  "env \<Rightarrow> writable \<Rightarrow> state \<Rightarrow> (error + unit) \<times> bytes outcome \<times> state" where
  "exportBackup env sink s =
     (case strictAssert (\<not> isRunning s) ''BackupService is already running'' of
        Inl e \<Rightarrow> (Inl e, Untouched, s)
      | Inr _ \<Rightarrow>
          (case exportBackup_try env sink (s\<lparr>isRunning := True\<rparr>) of
             (r, out, s') \<Rightarrow> (r, out, s'\<lparr>isRunning := False\<rparr>)))"

section \<open>importBackup\<close>

text \<open>
  \<^verbatim>\<open>createBackupStream\<close> is a factory: \<open>createBackupStream k\<close> is the stream its call
  number \<open>k\<close> within one import returns (the first call is number 0).

  First pass: the stream goes through \<open>getMacAndUpdateHmac\<close> into a sink that discards
  it; then the two assertions on the MAC. The result is \<^verbatim>\<open>theirMac\<close>.
\<close>

definition firstPass :: "env \<Rightarrow> bytes \<Rightarrow> (nat \<Rightarrow> readable) \<Rightarrow> error + bytes" where
  "firstPass env macKey createBackupStream =
     (case createBackupStream 0 of
        Inl e \<Rightarrow> Inl e
      | Inr data \<Rightarrow>
          (case getMacAndUpdateHmac (createHmac macKey) data of (h, discarded, theirMac) \<Rightarrow>
            (case theirMac of
               None \<Rightarrow> Inl (Error ''importBackup: Missing MAC'')
             | Some mac \<Rightarrow>
                 andThen (strictAssert (constantTimeEqual (digest env h) mac)
                            ''importBackup: Bad MAC'')
                   (\<lambda>_. Inr mac))))"

text \<open>
  Second pass: a new accumulator, the stream created again, and the pipeline
  \<open>getMacAndUpdateHmac\<close> (its callback is \<^verbatim>\<open>noop\<close>), \<open>getIvAndDecipher\<close>, gunzip,
  \<^verbatim>\<open>DelimitedStream\<close>, \<^verbatim>\<open>BackupImportStream\<close>; then the assertion on the MAC of this
  pass against \<^verbatim>\<open>theirMac\<close>.
\<close>

definition secondPass ::
  "env \<Rightarrow> bytes \<Rightarrow> bytes \<Rightarrow> bytes \<Rightarrow> (nat \<Rightarrow> readable) \<Rightarrow>
     (error + unit) \<times> bytes list outcome" where
  "secondPass env aesKey macKey theirMac createBackupStream =
     (case createBackupStream 1 of
        Inl e \<Rightarrow> (Inl e, TornDown)
      | Inr data \<Rightarrow>
          (case getMacAndUpdateHmac (createHmac macKey) data of (h, known, ignored) \<Rightarrow>
            (case andThen (getIvAndDecipher env aesKey known)
                    (\<lambda>padded. andThen (createGunzip env padded) (delimitedStream env)) of
               Inl e \<Rightarrow> (Inl e, TornDown)
             | Inr frames \<Rightarrow>
                 (case backupImportStream env frames of
                    Some e \<Rightarrow> (Inl e, TornDown)
                  | None \<Rightarrow>
                      (strictAssert (constantTimeEqual (digest env h) theirMac)
                         ''importBackup: Bad MAC, second pass'',
                       Drained frames)))))"

text \<open>The \<^verbatim>\<open>try\<close> block of \<^verbatim>\<open>importBackup\<close>; its \<^verbatim>\<open>catch\<close> logs and rethrows.\<close>

definition importBackup_try ::
  "env \<Rightarrow> (nat \<Rightarrow> readable) \<Rightarrow> (error + unit) \<times> bytes list outcome" where
  "importBackup_try env createBackupStream =
     (case getKeyMaterial env of
        Inl e \<Rightarrow> (Inl e, Untouched)
      | Inr (aesKey, macKey) \<Rightarrow>
          (case firstPass env macKey createBackupStream of
             Inl e \<Rightarrow> (Inl e, Untouched)
           | Inr theirMac \<Rightarrow> secondPass env aesKey macKey theirMac createBackupStream))"

definition importBackup ::
  "env \<Rightarrow> (nat \<Rightarrow> readable) \<Rightarrow> state \<Rightarrow> (error + unit) \<times> bytes list outcome \<times> state" where
  "importBackup env createBackupStream s =
     (case strictAssert (\<not> isRunning s) ''BackupService is already running'' of
        Inl e \<Rightarrow> (Inl e, Untouched, s)
      | Inr _ \<Rightarrow>
          (case importBackup_try env createBackupStream of
             (r, out) \<Rightarrow> (r, out, s\<lparr>isRunning := True\<rparr>\<lparr>isRunning := False\<rparr>)))"

section \<open>The two methods, from one await to the next\<close>










section \<open>Envelopes, tampering and verification, as the specification words them\<close>

text \<open>
  The wire format is \<open>IV(16) \<parallel> Ciphertext \<parallel> MAC(32)\<close>: the ciphertext body of an envelope is
  what lies between its first 16 and its last 32 bytes.
\<close>

definition envelopeCiphertext :: "bytes \<Rightarrow> bytes" where
  "envelopeCiphertext envelope =
     drop IV_LENGTH (take (length envelope - MAC_LENGTH) envelope)"

text \<open>Flipping bit \<open>j\<close> of byte \<open>i\<close> of a byte sequence.\<close>

definition flipBit :: "nat \<Rightarrow> nat \<Rightarrow> bytes \<Rightarrow> bytes" where
  "flipBit i j data = data[i := (data ! i) XOR push_bit j 1]"

text \<open>
  The comparison of pass 1 succeeds: key material was derived, the first stream ended
  without an error, it carries a trailing tag, and the tag is the HMAC under the MAC key
  of everything before it.
\<close>

definition macVerified :: "env \<Rightarrow> (nat \<Rightarrow> readable) \<Rightarrow> bool" where
  "macVerified env createBackupStream =
     (case getKeyMaterial env of
        Inl e \<Rightarrow> False
      | Inr (aesKey, macKey) \<Rightarrow>
          (case createBackupStream 0 of
             Inl e \<Rightarrow> False
           | Inr data \<Rightarrow>
               MAC_LENGTH \<le> length data \<and>
               hmacSha256 env macKey (take (length data - MAC_LENGTH) data) =
                 drop (length data - MAC_LENGTH) data))"

section \<open>A small executable environment\<close>

text \<open>
  Stand-ins for the primitives, small enough to evaluate: a cipher that shifts every byte
  by the first key byte and carries the IV as its first block, a 32-byte checksum in the
  place of the HMAC, a container with a one-byte length header in the place of gzip,
  padding with zeros to a multiple of 8, and one-byte records. They are used to run the
  theorems below on concrete inputs.
\<close>

definition testCipher :: "bytes \<Rightarrow> bytes \<Rightarrow> bytes \<Rightarrow> bytes" where
  "testCipher key iv plaintext = map (\<lambda>b. b + hd key) (iv @ plaintext)"

definition testDecipher :: "bytes \<Rightarrow> bytes \<Rightarrow> bytes \<Rightarrow> error + bytes" where
  "testDecipher key iv ciphertext =
     (let shifted = map (\<lambda>b. b - hd key) ciphertext
      in if length key = 32 \<and> length iv = 16 \<and> take 16 shifted = iv
         then Inr (drop 16 shifted) else Inl (Error ''bad decrypt''))"

definition testGunzip :: "bytes \<Rightarrow> error + bytes" where
  "testGunzip data =
     (case data of
        [] \<Rightarrow> Inl (Error ''unexpected end of file'')
      | n # rest \<Rightarrow>
          if unat n \<le> length rest then Inr (take (unat n) rest)
          else Inl (Error ''unexpected end of file''))"

definition testEnv :: env where
  "testEnv =
     \<lparr> getKeyMaterial = Inr (replicate 32 1, replicate 32 2),
       backupExportStream = Inr [7, 8, 9],
       entropy = (\<lambda>n. of_nat n),
       createGzip = (\<lambda>data. of_nat (length data) # data),
       appendPaddingStream = (\<lambda>data. data @ replicate (8 - length data mod 8) 0),
       createCipheriv = (\<lambda>key iv.
          if length key = 32 \<and> length iv = 16 then Inr (testCipher key iv)
          else Inl (Error ''Invalid key length'')),
       hmacSha256 = (\<lambda>key data. replicate 32 (sum_list (key @ data))),
       createDecipheriv = testDecipher,
       createGunzip = testGunzip,
       delimitedStream = (\<lambda>data. Inr (map (\<lambda>b. [b]) data)),
       backupImportStream = (\<lambda>frames. None) \<rparr>"

text \<open>The service as constructed: not started, not running.\<close>

definition idle :: state where
  "idle = \<lparr> isStarted = False, isRunning = False, drawn = 0 \<rparr>"

text \<open>The envelope that the test environment exports from the idle state.\<close>

definition testEnvelope :: bytes where
  "testEnvelope =
     map of_nat [0 ..< 16] @
     [1, 2, 3, 4, 5, 6, 7, 8, 9, 10, 11, 12, 13, 14, 15, 16, 4, 8, 9, 10, 1, 1, 1, 1] @
     replicate 32 99"

text \<open>The envelope that it exports next, from the state the first export leaves.\<close>

definition testEnvelope2 :: bytes where
  "testEnvelope2 =
     map of_nat [16 ..< 32] @
     [17, 18, 19, 20, 21, 22, 23, 24, 25, 26, 27, 28, 29, 30, 31, 32, 4, 8, 9, 10, 1, 1, 1, 1] @
     replicate 32 99"

section \<open>Facts about the stages\<close>

lemma digest_update_createHmac:
  "digest env (update (createHmac key) data) = hmacSha256 env key data"
  by (simp add: digest_def update_def createHmac_def)

lemma getMacAndUpdateHmac_append:
  "length mac = MAC_LENGTH \<Longrightarrow>
   getMacAndUpdateHmac h (body @ mac) = (update h body, body, Some mac)"
  by (simp add: getMacAndUpdateHmac_def Let_def)

text \<open>What the first pass returns, in terms of the stream it reads.\<close>

lemma firstPass_eq:
  "firstPass env macKey createBackupStream =
     (case createBackupStream 0 of
        Inl e \<Rightarrow> Inl e
      | Inr data \<Rightarrow>
          if length data < MAC_LENGTH then Inl (Error ''importBackup: Missing MAC'')
          else if hmacSha256 env macKey (take (length data - MAC_LENGTH) data) =
                    drop (length data - MAC_LENGTH) data
               then Inr (drop (length data - MAC_LENGTH) data)
               else Inl (Error ''importBackup: Bad MAC''))"
  by (simp add: firstPass_def getMacAndUpdateHmac_def Let_def digest_update_createHmac
      constantTimeEqual_def strictAssert_def andThen_def split: sum.splits)

lemma secondPass_touches:
  "snd (secondPass env aesKey macKey theirMac createBackupStream) \<noteq> Untouched"
  by (simp add: secondPass_def split: sum.splits prod.splits option.splits)

lemma importBackup_idle:
  "\<not> isRunning s \<Longrightarrow>
   importBackup env createBackupStream s =
     (fst (importBackup_try env createBackupStream),
      snd (importBackup_try env createBackupStream), s)"
  by (simp add: importBackup_def strictAssert_def split: prod.splits)


text \<open>An export whose stages all succeed, and what it writes.\<close>

lemma exportBackup_succeeds:
  assumes "\<not> isRunning s"
    and "getKeyMaterial env = Inr (aesKey, macKey)"
    and "iv = map (entropy env) [drawn s ..< drawn s + IV_LENGTH]"
    and "createCipheriv env aesKey iv = Inr cipher"
    and "backupExportStream env = Inr recordStream"
    and "ciphertext = cipher (appendPaddingStream env (createGzip env recordStream))"
    and "sink (iv @ ciphertext @ hmacSha256 env macKey (iv @ ciphertext)) = None"
  shows "exportBackup env sink s =
           (Inr (), Drained (iv @ ciphertext @ hmacSha256 env macKey (iv @ ciphertext)),
            s\<lparr>drawn := drawn s + IV_LENGTH\<rparr>)"
  using assms
  by (simp add: exportBackup_def exportBackup_try_def strictAssert_def randomBytes_def
      appendMacStream_def prependStream_def digest_update_createHmac)

text \<open>An import of a well-formed envelope whose stages all succeed.\<close>

lemma importBackup_succeeds:
  assumes "\<not> isRunning s"
    and "getKeyMaterial env = Inr (aesKey, macKey)"
    and "length iv = IV_LENGTH"
    and "length mac = MAC_LENGTH"
    and "hmacSha256 env macKey (iv @ ciphertext) = mac"
    and "createDecipheriv env aesKey iv ciphertext = Inr padded"
    and "createGunzip env padded = Inr recordStream"
    and "delimitedStream env recordStream = Inr frames"
    and "backupImportStream env frames = None"
  shows "importBackup env (\<lambda>k. Inr (iv @ ciphertext @ mac)) s = (Inr (), Drained frames, s)"
proof -
  have parts: "getMacAndUpdateHmac (createHmac macKey) (iv @ ciphertext @ mac) =
      (update (createHmac macKey) (iv @ ciphertext), iv @ ciphertext, Some mac)"
    using getMacAndUpdateHmac_append [OF assms(4), of "createHmac macKey" "iv @ ciphertext"]
    by simp
  have first: "firstPass env macKey (\<lambda>k. Inr (iv @ ciphertext @ mac)) = Inr mac"
    using assms(5)
    by (simp add: firstPass_def parts digest_update_createHmac constantTimeEqual_def
        strictAssert_def andThen_def)
  have decipher: "getIvAndDecipher env aesKey (iv @ ciphertext) = Inr padded"
    using assms(3,6) by (simp add: getIvAndDecipher_def)
  have second: "secondPass env aesKey macKey mac (\<lambda>k. Inr (iv @ ciphertext @ mac)) =
      (Inr (), Drained frames)"
    using assms(5,7,8,9)
    by (simp add: secondPass_def parts decipher andThen_def digest_update_createHmac
        constantTimeEqual_def strictAssert_def)
  show ?thesis
    using assms(1,2) by (simp add: importBackup_idle importBackup_try_def first second)
qed

text \<open>Flipping one bit of a byte changes it.\<close>

lemma xor_bit_neq: "j < 8 \<Longrightarrow> (w :: byte) XOR push_bit j 1 \<noteq> w"
proof
  assume j: "j < 8" and eq: "w XOR push_bit j 1 = w"
  have "w XOR (w XOR push_bit j 1) = push_bit j 1"
    by (simp add: xor.assoc [symmetric])
  with eq have zero: "push_bit j (1 :: byte) = 0"
    by simp
  have "bit (push_bit j (1 :: byte)) j"
    using j by (simp add: bit_simps)
  then have "bit (0 :: byte) j"
    by (simp only: zero)
  then show False by simp
qed

lemma flipBit_neq:
  assumes "i < length data" and "j < 8"
  shows "flipBit i j data \<noteq> data"
proof
  assume "flipBit i j data = data"
  then have "flipBit i j data ! i = data ! i" by simp
  with assms(1) have "(data ! i) XOR push_bit j 1 = data ! i"
    by (simp add: flipBit_def)
  with xor_bit_neq [OF assms(2)] show False by blast
qed

text \<open>Facts about the test environment.\<close>

lemma testEnv_simps:
  "getKeyMaterial testEnv = Inr (replicate 32 1, replicate 32 2)"
  "backupExportStream testEnv = Inr [7, 8, 9]"
  "entropy testEnv = (\<lambda>n. of_nat n)"
  "createGzip testEnv data = of_nat (length data) # data"
  "appendPaddingStream testEnv data = data @ replicate (8 - length data mod 8) 0"
  "createCipheriv testEnv key iv =
     (if length key = 32 \<and> length iv = 16 then Inr (testCipher key iv)
      else Inl (Error ''Invalid key length''))"
  "hmacSha256 testEnv key data = replicate 32 (sum_list (key @ data))"
  "createDecipheriv testEnv = testDecipher"
  "createGunzip testEnv = testGunzip"
  "delimitedStream testEnv data = Inr (map (\<lambda>b. [b]) data)"
  "backupImportStream testEnv frames = None"
  by (simp_all add: testEnv_def)

lemma testDecipher_testCipher:
  "length key = 32 \<Longrightarrow> length iv = 16 \<Longrightarrow>
   testDecipher key iv (testCipher key iv plaintext) = Inr plaintext"
  by (simp add: testDecipher_def testCipher_def o_def)

lemma testCipher_iv:
  assumes "length iv = length iv'" and "testCipher key iv plaintext = testCipher key iv' plaintext"
  shows "iv = iv'"
proof -
  have "inj (\<lambda>b :: byte. b + hd key)"
    by (simp add: inj_on_def)
  with assms(2) have "iv @ plaintext = iv' @ plaintext"
    unfolding testCipher_def by (simp only: inj_map_eq_map)
  then show ?thesis by simp
qed

lemma testEnv_export:
  "map (entropy testEnv) [drawn idle ..< drawn idle + IV_LENGTH] @
   testCipher (replicate 32 1) (map (entropy testEnv) [drawn idle ..< drawn idle + IV_LENGTH])
     (appendPaddingStream testEnv (createGzip testEnv [7, 8, 9])) @
   hmacSha256 testEnv (replicate 32 2)
     (map (entropy testEnv) [drawn idle ..< drawn idle + IV_LENGTH] @
      testCipher (replicate 32 1) (map (entropy testEnv) [drawn idle ..< drawn idle + IV_LENGTH])
        (appendPaddingStream testEnv (createGzip testEnv [7, 8, 9]))) = testEnvelope"
  by code_simp

lemma testEnv_export2:
  "map (entropy testEnv)
     [drawn (idle\<lparr>drawn := 16\<rparr>) ..< drawn (idle\<lparr>drawn := 16\<rparr>) + IV_LENGTH] @
   testCipher (replicate 32 1)
     (map (entropy testEnv)
       [drawn (idle\<lparr>drawn := 16\<rparr>) ..< drawn (idle\<lparr>drawn := 16\<rparr>) + IV_LENGTH])
     (appendPaddingStream testEnv (createGzip testEnv [7, 8, 9])) @
   hmacSha256 testEnv (replicate 32 2)
     (map (entropy testEnv)
        [drawn (idle\<lparr>drawn := 16\<rparr>) ..< drawn (idle\<lparr>drawn := 16\<rparr>) + IV_LENGTH] @
      testCipher (replicate 32 1)
        (map (entropy testEnv)
          [drawn (idle\<lparr>drawn := 16\<rparr>) ..< drawn (idle\<lparr>drawn := 16\<rparr>) + IV_LENGTH])
        (appendPaddingStream testEnv (createGzip testEnv [7, 8, 9]))) = testEnvelope2"
  by code_simp

lemma testEnv_iv_sensitive:
  "\<forall>v v' c c' x. createCipheriv testEnv key v = Inr c \<and>
     createCipheriv testEnv key v' = Inr c' \<and> v \<noteq> v' \<longrightarrow> c x \<noteq> c' x"
proof (intro allI impI)
  fix v v' c c' x
  assume h: "createCipheriv testEnv key v = Inr c \<and>
     createCipheriv testEnv key v' = Inr c' \<and> v \<noteq> v'"
  then have c: "length v = 16 \<and> c = testCipher key v"
    by (auto simp add: testEnv_simps split: if_splits)
  from h have c': "length v' = 16 \<and> c' = testCipher key v'"
    by (auto simp add: testEnv_simps split: if_splits)
  show "c x \<noteq> c' x"
  proof
    assume "c x = c' x"
    with c c' have "testCipher key v x = testCipher key v' x"
      by simp
    moreover from c c' have "length v = length v'"
      by simp
    ultimately have "v = v'"
      by (rule testCipher_iv [rotated])
    with h show False by simp
  qed
qed

text \<open>The ciphertext body of an envelope put together from its three parts.\<close>

lemma envelopeCiphertext_parts:
  "length iv = IV_LENGTH \<Longrightarrow> length mac = MAC_LENGTH \<Longrightarrow>
   envelopeCiphertext (iv @ ciphertext @ mac) = ciphertext"
  by (simp add: envelopeCiphertext_def)

section \<open>The concurrency guard\<close>

text \<open>
  Claim C4. A call of \<open>exportBackup\<close> or of \<open>importBackup\<close> on a service whose running flag
  is set, which is the state of the service while the \<^verbatim>\<open>try\<close> block of another export or
  import runs, is rejected with the error ``BackupService is already running''. The consumer
  is untouched (no pipeline was started and nothing was written), and the state of the
  service, the running flag included, is the one before the call, so the operation in
  flight goes on as if the call had not been made.
\<close>

theorem busy_call_rejected:
  assumes "isRunning s"
  shows "exportBackup env sink s =
           (Inl (Error ''BackupService is already running''), Untouched, s) \<and>
         importBackup env createBackupStream s =
           (Inl (Error ''BackupService is already running''), Untouched, s)"
  using assms by (simp add: exportBackup_def importBackup_def strictAssert_def)

text \<open>The guard at work on the test environment, with the flag set.\<close>

theorem busy_call_rejected_witness:
  "isRunning (idle\<lparr>isRunning := True\<rparr>) \<and>
   exportBackup testEnv (\<lambda>written. None) (idle\<lparr>isRunning := True\<rparr>) =
     (Inl (Error ''BackupService is already running''), Untouched, idle\<lparr>isRunning := True\<rparr>) \<and>
   importBackup testEnv (\<lambda>k. Inr testEnvelope) (idle\<lparr>isRunning := True\<rparr>) =
     (Inl (Error ''BackupService is already running''), Untouched, idle\<lparr>isRunning := True\<rparr>)"
proof -
  have running: "isRunning (idle\<lparr>isRunning := True\<rparr>)"
    by simp
  show ?thesis
    using running
      busy_call_rejected [OF running, of testEnv "\<lambda>written. None" "\<lambda>k. Inr testEnvelope"]
    by simp
qed



section \<open>The envelope\<close>

text \<open>
  Claim C2. When key derivation, the construction of the cipher, the record stream and the
  sink succeed, \<open>exportBackup\<close> writes to the sink exactly \<open>IV \<parallel> Ciphertext \<parallel> MAC\<close>: the IV
  is the 16 bytes drawn from the random source, the ciphertext is the cipher under the AES
  key and that IV applied to the padded, compressed record stream (compression first, then
  padding, then encryption), and the MAC is the HMAC under the MAC key of \<open>IV \<parallel> Ciphertext\<close>,
  32 bytes long as HMAC-SHA-256 tags are.
\<close>

theorem export_wire_format:
  assumes "\<not> isRunning s"
    and "getKeyMaterial env = Inr (aesKey, macKey)"
    and "iv = map (entropy env) [drawn s ..< drawn s + IV_LENGTH]"
    and "createCipheriv env aesKey iv = Inr cipher"
    and "backupExportStream env = Inr recordStream"
    and "ciphertext = cipher (appendPaddingStream env (createGzip env recordStream))"
    and "mac = hmacSha256 env macKey (iv @ ciphertext)"
    and "\<forall>key data. length (hmacSha256 env key data) = 32"
    and "sink (iv @ ciphertext @ mac) = None"
  shows "exportBackup env sink s =
           (Inr (), Drained (iv @ ciphertext @ mac), s\<lparr>drawn := drawn s + IV_LENGTH\<rparr>) \<and>
         length iv = 16 \<and> length mac = 32"
proof -
  have "exportBackup env sink s =
      (Inr (), Drained (iv @ ciphertext @ mac), s\<lparr>drawn := drawn s + IV_LENGTH\<rparr>)"
    using assms(1-7,9)
    by (simp add: exportBackup_def exportBackup_try_def strictAssert_def randomBytes_def
        appendMacStream_def prependStream_def digest_update_createHmac)
  moreover have "length iv = 16"
    using assms(3) by (simp add: IV_LENGTH_def)
  ultimately show ?thesis
    using assms(7,8) by simp
qed

text \<open>The envelope of the test environment, 16 + 24 + 32 bytes.\<close>

theorem export_wire_format_witness:
  "exportBackup testEnv (\<lambda>written. None) idle =
     (Inr (), Drained testEnvelope, idle\<lparr>drawn := 16\<rparr>) \<and>
   length testEnvelope = 16 + 24 + 32"
proof -
  let ?iv = "map (entropy testEnv) [drawn idle ..< drawn idle + IV_LENGTH]"
  let ?cipher = "testCipher (replicate 32 1) ?iv"
  let ?ciphertext = "?cipher (appendPaddingStream testEnv (createGzip testEnv [7, 8, 9]))"
  let ?mac = "hmacSha256 testEnv (replicate 32 2) (?iv @ ?ciphertext)"
  have free: "\<not> isRunning idle"
    by (simp add: idle_def)
  have keys: "getKeyMaterial testEnv = Inr (replicate 32 1, replicate 32 2)"
    by (simp add: testEnv_simps)
  have cipher: "createCipheriv testEnv (replicate 32 1) ?iv = Inr ?cipher"
    by (simp add: testEnv_simps IV_LENGTH_def)
  have records: "backupExportStream testEnv = Inr [7, 8, 9]"
    by (simp add: testEnv_simps)
  have tag: "\<forall>key data. length (hmacSha256 testEnv key data) = 32"
    by (simp add: testEnv_simps)
  have sink: "(\<lambda>written. None :: error option) (?iv @ ?ciphertext @ ?mac) = None"
    by simp
  have envelope: "?iv @ ?ciphertext @ ?mac = testEnvelope"
    by (rule testEnv_export)
  have len: "length testEnvelope = 16 + 24 + 32"
    by (simp add: testEnvelope_def)
  show ?thesis
    using export_wire_format [OF free keys refl cipher records refl refl tag sink] envelope len
    by (simp add: IV_LENGTH_def idle_def)
qed

section \<open>The two passes of an import\<close>

text \<open>
  Claim C3. In an import on an idle service, the record sink is fed by a pipeline (the
  second pass is started) exactly when the comparison of the first pass has succeeded.
  When the stream carries a tag that is not the HMAC of the bytes before it, the import
  fails with ``importBackup: Bad MAC'' and the record sink is untouched. The first pass
  neither decrypts nor decompresses: of the primitives, its result depends on the HMAC
  only.
\<close>

theorem first_pass_gates_second_pass:
  assumes "\<not> isRunning s"
  shows "(fst (snd (importBackup env createBackupStream s)) \<noteq> Untouched
            \<longleftrightarrow> macVerified env createBackupStream) \<and>
         (getKeyMaterial env = Inr (aesKey, macKey) \<and> createBackupStream 0 = Inr data \<and>
          MAC_LENGTH \<le> length data \<and>
          hmacSha256 env macKey (take (length data - MAC_LENGTH) data) \<noteq>
            drop (length data - MAC_LENGTH) data
          \<longrightarrow> importBackup env createBackupStream s =
                (Inl (Error ''importBackup: Bad MAC''), Untouched, s)) \<and>
         (hmacSha256 env' = hmacSha256 env \<longrightarrow>
            firstPass env' macKey createBackupStream = firstPass env macKey createBackupStream)"
proof (intro conjI impI)
  show "fst (snd (importBackup env createBackupStream s)) \<noteq> Untouched
          \<longleftrightarrow> macVerified env createBackupStream"
    using assms secondPass_touches [of env _ _ _ createBackupStream]
    by (auto simp add: importBackup_idle importBackup_try_def firstPass_eq macVerified_def
        split: sum.splits prod.splits if_splits)
next
  assume "getKeyMaterial env = Inr (aesKey, macKey) \<and> createBackupStream 0 = Inr data \<and>
          MAC_LENGTH \<le> length data \<and>
          hmacSha256 env macKey (take (length data - MAC_LENGTH) data) \<noteq>
            drop (length data - MAC_LENGTH) data"
  then show "importBackup env createBackupStream s =
                (Inl (Error ''importBackup: Bad MAC''), Untouched, s)"
    using assms by (simp add: importBackup_idle importBackup_try_def firstPass_eq)
next
  assume "hmacSha256 env' = hmacSha256 env"
  then show "firstPass env' macKey createBackupStream = firstPass env macKey createBackupStream"
    by (simp add: firstPass_eq split: sum.splits)
qed

text \<open>The test envelope with one bit of its ciphertext flipped is rejected in the first pass.\<close>

theorem first_pass_gates_second_pass_witness:
  "\<not> isRunning idle \<and>
   \<not> macVerified testEnv (\<lambda>k. Inr (flipBit 20 0 testEnvelope)) \<and>
   importBackup testEnv (\<lambda>k. Inr (flipBit 20 0 testEnvelope)) idle =
     (Inl (Error ''importBackup: Bad MAC''), Untouched, idle) \<and>
   firstPass (testEnv\<lparr>createDecipheriv := \<lambda>key iv data. Inl (Error ''bad decrypt''),
                      createGunzip := \<lambda>data. Inl (Error ''incorrect header check'')\<rparr>)
       (replicate 32 2) (\<lambda>k. Inr (flipBit 20 0 testEnvelope)) =
     firstPass testEnv (replicate 32 2) (\<lambda>k. Inr (flipBit 20 0 testEnvelope))"
proof -
  let ?broken = "testEnv\<lparr>createDecipheriv := \<lambda>key iv data. Inl (Error ''bad decrypt''),
      createGunzip := \<lambda>data. Inl (Error ''incorrect header check'')\<rparr>"
  have same: "hmacSha256 ?broken = hmacSha256 testEnv"
    by simp
  let ?data = "flipBit 20 0 testEnvelope"
  have free: "\<not> isRunning idle"
    by (simp add: idle_def)
  have keys: "getKeyMaterial testEnv = Inr (replicate 32 1, replicate 32 2)"
    by (simp add: testEnv_simps)
  have long: "MAC_LENGTH \<le> length ?data"
    by (simp add: flipBit_def testEnvelope_def MAC_LENGTH_def)
  have bad: "hmacSha256 testEnv (replicate 32 2) (take (length ?data - MAC_LENGTH) ?data) \<noteq>
      drop (length ?data - MAC_LENGTH) ?data"
    by code_simp
  note gate = first_pass_gates_second_pass [OF free, of testEnv "\<lambda>k. Inr ?data"
      "replicate 32 1" "replicate 32 2" ?data ?broken]
  from gate keys long bad
  have result: "importBackup testEnv (\<lambda>k. Inr ?data) idle =
      (Inl (Error ''importBackup: Bad MAC''), Untouched, idle)"
    by blast
  from gate have "(fst (snd (importBackup testEnv (\<lambda>k. Inr ?data) idle)) \<noteq> Untouched)
      = macVerified testEnv (\<lambda>k. Inr ?data)"
    by (rule conjunct1)
  with result have unverified: "\<not> macVerified testEnv (\<lambda>k. Inr ?data)"
    by simp
  from gate same
  have "firstPass ?broken (replicate 32 2) (\<lambda>k. Inr ?data) =
      firstPass testEnv (replicate 32 2) (\<lambda>k. Inr ?data)"
    by blast
  with free result unverified show ?thesis
    by (simp only: simp_thms)
qed

text \<open>
  Claim C7. After a first pass that succeeded on the first stream, and a second pipeline
  that drained on the second stream, the import succeeds exactly when the HMAC of the
  second stream without its last 32 bytes, computed from an empty accumulator, equals the
  tag captured from the first stream; otherwise it fails with ``importBackup: Bad MAC,
  second pass'', the records having been delivered. The last 32 bytes of the second stream
  play no part.
\<close>

theorem second_pass_mac_checked:
  assumes "\<not> isRunning s"
    and "getKeyMaterial env = Inr (aesKey, macKey)"
    and "createBackupStream 0 = Inr data1"
    and "MAC_LENGTH \<le> length data1"
    and "hmacSha256 env macKey (take (length data1 - MAC_LENGTH) data1) =
           drop (length data1 - MAC_LENGTH) data1"
    and "createBackupStream 1 = Inr data2"
    and "andThen (getIvAndDecipher env aesKey (take (length data2 - MAC_LENGTH) data2))
           (\<lambda>padded. andThen (createGunzip env padded) (delimitedStream env)) = Inr frames"
    and "backupImportStream env frames = None"
  shows "importBackup env createBackupStream s =
           (if hmacSha256 env macKey (take (length data2 - MAC_LENGTH) data2) =
                 drop (length data1 - MAC_LENGTH) data1
            then Inr () else Inl (Error ''importBackup: Bad MAC, second pass''),
            Drained frames, s)"
  using assms
  by (simp add: importBackup_idle importBackup_try_def firstPass_eq secondPass_def
      getMacAndUpdateHmac_def Let_def digest_update_createHmac constantTimeEqual_def
      strictAssert_def)

text \<open>
  A factory whose second stream differs from the first: in a ciphertext byte (padding), the
  import fails in the second check; in the last byte only, it succeeds.
\<close>

theorem second_pass_mac_checked_witness:
  "importBackup testEnv (\<lambda>k. Inr (if k = 0 then testEnvelope else flipBit 39 0 testEnvelope)) idle =
     (Inl (Error ''importBackup: Bad MAC, second pass''), Drained [[7], [8], [9]], idle) \<and>
   importBackup testEnv (\<lambda>k. Inr (if k = 0 then testEnvelope else flipBit 71 0 testEnvelope)) idle =
     (Inr (), Drained [[7], [8], [9]], idle)"
proof -
  let ?body = "flipBit 39 0 testEnvelope"
  let ?tag = "flipBit 71 0 testEnvelope"
  have free: "\<not> isRunning idle"
    by (simp add: idle_def)
  have keys: "getKeyMaterial testEnv = Inr (replicate 32 1, replicate 32 2)"
    by (simp add: testEnv_simps)
  have long: "MAC_LENGTH \<le> length testEnvelope"
    by (simp add: testEnvelope_def MAC_LENGTH_def)
  have good: "hmacSha256 testEnv (replicate 32 2)
      (take (length testEnvelope - MAC_LENGTH) testEnvelope) =
      drop (length testEnvelope - MAC_LENGTH) testEnvelope"
    by code_simp
  have drains_body: "andThen (getIvAndDecipher testEnv (replicate 32 1)
        (take (length ?body - MAC_LENGTH) ?body))
      (\<lambda>padded. andThen (createGunzip testEnv padded) (delimitedStream testEnv)) =
      Inr [[7], [8], [9]]"
    by code_simp
  have drains_tag: "andThen (getIvAndDecipher testEnv (replicate 32 1)
        (take (length ?tag - MAC_LENGTH) ?tag))
      (\<lambda>padded. andThen (createGunzip testEnv padded) (delimitedStream testEnv)) =
      Inr [[7], [8], [9]]"
    by code_simp
  have accepts: "backupImportStream testEnv [[7], [8], [9]] = None"
    by (simp add: testEnv_simps)
  have differs: "hmacSha256 testEnv (replicate 32 2) (take (length ?body - MAC_LENGTH) ?body) \<noteq>
      drop (length testEnvelope - MAC_LENGTH) testEnvelope"
    by code_simp
  have agrees: "hmacSha256 testEnv (replicate 32 2) (take (length ?tag - MAC_LENGTH) ?tag) =
      drop (length testEnvelope - MAC_LENGTH) testEnvelope"
    by code_simp
  have "importBackup testEnv (\<lambda>k. Inr (if k = 0 then testEnvelope else ?body)) idle =
      (Inl (Error ''importBackup: Bad MAC, second pass''), Drained [[7], [8], [9]], idle)"
    using second_pass_mac_checked [of idle testEnv "replicate 32 1" "replicate 32 2"
        "\<lambda>k. Inr (if k = 0 then testEnvelope else ?body)" testEnvelope ?body "[[7], [8], [9]]"]
      free keys long good drains_body accepts differs
    by simp
  moreover have "importBackup testEnv (\<lambda>k. Inr (if k = 0 then testEnvelope else ?tag)) idle =
      (Inr (), Drained [[7], [8], [9]], idle)"
    using second_pass_mac_checked [of idle testEnv "replicate 32 1" "replicate 32 2"
        "\<lambda>k. Inr (if k = 0 then testEnvelope else ?tag)" testEnvelope ?tag "[[7], [8], [9]]"]
      free keys long good drains_tag accepts agrees
    by simp
  ultimately show ?thesis by simp
qed

section \<open>Export, then import\<close>

text \<open>
  Claim C1. Let an export succeed on a record stream whose framing reads back as the
  records \<open>records\<close>, with a cipher that the decipher undoes on the padded, compressed
  stream under the same key and IV, a decompression that returns the record stream from its
  padded compression, and an HMAC with tags of 32 bytes. Then an import from a factory that
  replays the bytes the export wrote succeeds, in both passes, and delivers exactly
  \<open>records\<close> to the record sink. The records need not be non-empty.
\<close>

theorem export_import_roundtrip:
  assumes "\<not> isRunning s"
    and "getKeyMaterial env = Inr (aesKey, macKey)"
    and "iv = map (entropy env) [drawn s ..< drawn s + IV_LENGTH]"
    and "createCipheriv env aesKey iv = Inr cipher"
    and "backupExportStream env = Inr recordStream"
    and "delimitedStream env recordStream = Inr records"
    and "padded = appendPaddingStream env (createGzip env recordStream)"
    and "createDecipheriv env aesKey iv (cipher padded) = Inr padded"
    and "createGunzip env padded = Inr recordStream"
    and "mac = hmacSha256 env macKey (iv @ cipher padded)"
    and "length mac = MAC_LENGTH"
    and "envelope = iv @ cipher padded @ mac"
    and "sink envelope = None"
    and "backupImportStream env records = None"
    and "s' = s\<lparr>drawn := drawn s + IV_LENGTH\<rparr>"
  shows "exportBackup env sink s = (Inr (), Drained envelope, s') \<and>
         importBackup env (\<lambda>k. Inr envelope) s' = (Inr (), Drained records, s')"
proof -
  have "sink (iv @ cipher padded @ hmacSha256 env macKey (iv @ cipher padded)) = None"
    using assms(10,12,13) by simp
  with assms(1-5,7)
  have "exportBackup env sink s =
      (Inr (), Drained (iv @ cipher padded @ hmacSha256 env macKey (iv @ cipher padded)),
       s\<lparr>drawn := drawn s + IV_LENGTH\<rparr>)"
    by (intro exportBackup_succeeds [where aesKey = aesKey and cipher = cipher
          and recordStream = recordStream]) simp_all
  then have export: "exportBackup env sink s = (Inr (), Drained envelope, s')"
    using assms(10,12,15) by simp
  have idle: "\<not> isRunning s'"
    using assms(1,15) by simp
  have len: "length iv = IV_LENGTH"
    using assms(3) by simp
  have "importBackup env (\<lambda>k. Inr (iv @ cipher padded @ mac)) s' = (Inr (), Drained records, s')"
    using idle assms(2) len assms(11) assms(10) [symmetric] assms(8,9,6,14)
    by (rule importBackup_succeeds)
  with export assms(12) show ?thesis by simp
qed

text \<open>The round trip of the test environment.\<close>

theorem export_import_roundtrip_witness:
  "exportBackup testEnv (\<lambda>written. None) idle =
     (Inr (), Drained testEnvelope, idle\<lparr>drawn := 16\<rparr>) \<and>
   importBackup testEnv (\<lambda>k. Inr testEnvelope) (idle\<lparr>drawn := 16\<rparr>) =
     (Inr (), Drained [[7], [8], [9]], idle\<lparr>drawn := 16\<rparr>)"
proof -
  let ?iv = "map (entropy testEnv) [drawn idle ..< drawn idle + IV_LENGTH]"
  let ?cipher = "testCipher (replicate 32 1) ?iv"
  let ?padded = "appendPaddingStream testEnv (createGzip testEnv [7, 8, 9])"
  let ?mac = "hmacSha256 testEnv (replicate 32 2) (?iv @ ?cipher ?padded)"
  have free: "\<not> isRunning idle"
    by (simp add: idle_def)
  have keys: "getKeyMaterial testEnv = Inr (replicate 32 1, replicate 32 2)"
    by (simp add: testEnv_simps)
  have cipher: "createCipheriv testEnv (replicate 32 1) ?iv = Inr ?cipher"
    by (simp add: testEnv_simps IV_LENGTH_def)
  have stream: "backupExportStream testEnv = Inr [7, 8, 9]"
    by (simp add: testEnv_simps)
  have records: "delimitedStream testEnv [7, 8, 9] = Inr [[7], [8], [9]]"
    by (simp add: testEnv_simps)
  have decipher: "createDecipheriv testEnv (replicate 32 1) ?iv (?cipher ?padded) = Inr ?padded"
    by (simp add: testEnv_simps testDecipher_testCipher IV_LENGTH_def)
  have gunzip: "createGunzip testEnv ?padded = Inr [7, 8, 9]"
    by (simp add: testEnv_simps testGunzip_def)
  have tag: "length ?mac = MAC_LENGTH"
    by (simp add: testEnv_simps MAC_LENGTH_def)
  have envelope: "testEnvelope = ?iv @ ?cipher ?padded @ ?mac"
    by (simp only: testEnv_export)
  have sink: "(\<lambda>written. None :: error option) testEnvelope = None"
    by simp
  have accepts: "backupImportStream testEnv [[7], [8], [9]] = None"
    by (simp add: testEnv_simps)
  have after: "idle\<lparr>drawn := 16\<rparr> = idle\<lparr>drawn := drawn idle + IV_LENGTH\<rparr>"
    by (simp add: idle_def IV_LENGTH_def)
  show ?thesis
    by (rule export_import_roundtrip [OF free keys refl cipher stream records refl decipher
          gunzip refl tag envelope sink accepts after])
qed

section \<open>Tampering\<close>

text \<open>
  Claim C8. Take an envelope of at least 48 bytes whose trailing tag verifies, and flip
  bit \<open>j\<close> of its byte \<open>i\<close>. If the byte lies in the tag, the import of the modified
  envelope fails in the first pass with ``importBackup: Bad MAC'' and the record sink is
  untouched. If the byte lies in the IV or in the ciphertext, the same holds, provided the
  HMAC tells the modified \<open>IV \<parallel> Ciphertext\<close> from the original, which is the collision
  resistance expected of HMAC-SHA-256 and nothing the service can check.
\<close>

theorem bit_flip_rejected:
  assumes "\<not> isRunning s"
    and "getKeyMaterial env = Inr (aesKey, macKey)"
    and "IV_LENGTH + MAC_LENGTH \<le> length envelope"
    and "hmacSha256 env macKey (take (length envelope - MAC_LENGTH) envelope) =
           drop (length envelope - MAC_LENGTH) envelope"
    and "i < length envelope" and "j < 8"
    and "i < length envelope - MAC_LENGTH \<longrightarrow>
           hmacSha256 env macKey (take (length envelope - MAC_LENGTH) (flipBit i j envelope)) \<noteq>
           hmacSha256 env macKey (take (length envelope - MAC_LENGTH) envelope)"
  shows "importBackup env (\<lambda>k. Inr (flipBit i j envelope)) s =
           (Inl (Error ''importBackup: Bad MAC''), Untouched, s)"
proof -
  let ?n = "length envelope - MAC_LENGTH"
  let ?flipped = "flipBit i j envelope"
  have len: "length ?flipped = length envelope"
    by (simp add: flipBit_def)
  have bad: "hmacSha256 env macKey (take ?n ?flipped) \<noteq> drop ?n ?flipped"
  proof (cases "i < ?n")
    case True
    then have "drop ?n ?flipped = drop ?n envelope"
      by (simp add: flipBit_def)
    with True assms(4,7) show ?thesis by simp
  next
    case False
    then have same: "take ?n ?flipped = take ?n envelope"
      by (simp add: flipBit_def)
    have "drop ?n ?flipped \<noteq> drop ?n envelope"
    proof
      assume "drop ?n ?flipped = drop ?n envelope"
      with same have "take ?n ?flipped @ drop ?n ?flipped = take ?n envelope @ drop ?n envelope"
        by (simp only:)
      then have "?flipped = envelope"
        by (simp only: append_take_drop_id)
      with flipBit_neq [OF assms(5,6)] show False by simp
    qed
    with same assms(4) show ?thesis by simp
  qed
  have "MAC_LENGTH \<le> length ?flipped"
    using assms(3) len by simp
  with bad show ?thesis
    using assms(1,2) len
    by (simp add: importBackup_idle importBackup_try_def firstPass_eq)
qed

text \<open>Bit flips in the tag, in the IV and in the ciphertext of the test envelope.\<close>

theorem bit_flip_rejected_witness:
  "importBackup testEnv (\<lambda>k. Inr (flipBit 71 7 testEnvelope)) idle =
     (Inl (Error ''importBackup: Bad MAC''), Untouched, idle) \<and>
   importBackup testEnv (\<lambda>k. Inr (flipBit 3 0 testEnvelope)) idle =
     (Inl (Error ''importBackup: Bad MAC''), Untouched, idle) \<and>
   importBackup testEnv (\<lambda>k. Inr (flipBit 16 5 testEnvelope)) idle =
     (Inl (Error ''importBackup: Bad MAC''), Untouched, idle)"
proof -
  have free: "\<not> isRunning idle"
    by (simp add: idle_def)
  have keys: "getKeyMaterial testEnv = Inr (replicate 32 1, replicate 32 2)"
    by (simp add: testEnv_simps)
  have long: "IV_LENGTH + MAC_LENGTH \<le> length testEnvelope"
    by (simp add: testEnvelope_def IV_LENGTH_def MAC_LENGTH_def)
  have valid: "hmacSha256 testEnv (replicate 32 2)
      (take (length testEnvelope - MAC_LENGTH) testEnvelope) =
      drop (length testEnvelope - MAC_LENGTH) testEnvelope"
    by code_simp
  have in_mac: "71 < length testEnvelope" and in_iv: "3 < length testEnvelope"
    and in_body: "16 < length testEnvelope"
    by (simp_all add: testEnvelope_def)
  have no_hash: "71 < length testEnvelope - MAC_LENGTH \<longrightarrow>
      hmacSha256 testEnv (replicate 32 2)
        (take (length testEnvelope - MAC_LENGTH) (flipBit 71 7 testEnvelope)) \<noteq>
      hmacSha256 testEnv (replicate 32 2) (take (length testEnvelope - MAC_LENGTH) testEnvelope)"
    by (simp add: testEnvelope_def MAC_LENGTH_def)
  have iv_hash: "3 < length testEnvelope - MAC_LENGTH \<longrightarrow>
      hmacSha256 testEnv (replicate 32 2)
        (take (length testEnvelope - MAC_LENGTH) (flipBit 3 0 testEnvelope)) \<noteq>
      hmacSha256 testEnv (replicate 32 2) (take (length testEnvelope - MAC_LENGTH) testEnvelope)"
    by code_simp
  have body_hash: "16 < length testEnvelope - MAC_LENGTH \<longrightarrow>
      hmacSha256 testEnv (replicate 32 2)
        (take (length testEnvelope - MAC_LENGTH) (flipBit 16 5 testEnvelope)) \<noteq>
      hmacSha256 testEnv (replicate 32 2) (take (length testEnvelope - MAC_LENGTH) testEnvelope)"
    by code_simp
  have seven: "(7 :: nat) < 8" and zero: "(0 :: nat) < 8" and five: "(5 :: nat) < 8"
    by simp_all
  from bit_flip_rejected [OF free keys long valid in_mac seven no_hash]
    bit_flip_rejected [OF free keys long valid in_iv zero iv_hash]
    bit_flip_rejected [OF free keys long valid in_body five body_hash]
  show ?thesis
    by (simp only: simp_thms)
qed

section \<open>Two exports of the same records\<close>

text \<open>
  Claim C9. Two exports of the same record stream under the same key material, started in
  two idle states, each draw their IV from the random source (the 16 bytes at the position
  the state has reached; the key material plays no part) and put it in front of the
  envelope. With a cipher whose output changes whenever the IV changes, as that of CBC
  does, the ciphertext bodies of the two envelopes differ whenever the two IVs differ. Both
  envelopes import to the same records.
\<close>

theorem fresh_iv_exports:
  assumes "\<not> isRunning s" and "\<not> isRunning s'" and "\<not> isRunning t"
    and "getKeyMaterial env = Inr (aesKey, macKey)"
    and "iv = map (entropy env) [drawn s ..< drawn s + IV_LENGTH]"
    and "iv' = map (entropy env) [drawn s' ..< drawn s' + IV_LENGTH]"
    and "createCipheriv env aesKey iv = Inr cipher"
    and "createCipheriv env aesKey iv' = Inr cipher'"
    and "\<forall>v v' c c' x. createCipheriv env aesKey v = Inr c \<and>
           createCipheriv env aesKey v' = Inr c' \<and> v \<noteq> v' \<longrightarrow> c x \<noteq> c' x"
    and "backupExportStream env = Inr recordStream"
    and "delimitedStream env recordStream = Inr records"
    and "padded = appendPaddingStream env (createGzip env recordStream)"
    and "createDecipheriv env aesKey iv (cipher padded) = Inr padded"
    and "createDecipheriv env aesKey iv' (cipher' padded) = Inr padded"
    and "createGunzip env padded = Inr recordStream"
    and "\<forall>data. length (hmacSha256 env macKey data) = MAC_LENGTH"
    and "envelope = iv @ cipher padded @ hmacSha256 env macKey (iv @ cipher padded)"
    and "envelope' = iv' @ cipher' padded @ hmacSha256 env macKey (iv' @ cipher' padded)"
    and "sink envelope = None" and "sink' envelope' = None"
    and "backupImportStream env records = None"
  shows "exportBackup env sink s =
           (Inr (), Drained envelope, s\<lparr>drawn := drawn s + IV_LENGTH\<rparr>) \<and>
         exportBackup env sink' s' =
           (Inr (), Drained envelope', s'\<lparr>drawn := drawn s' + IV_LENGTH\<rparr>) \<and>
         take IV_LENGTH envelope = iv \<and> take IV_LENGTH envelope' = iv' \<and>
         (iv \<noteq> iv' \<longrightarrow> envelopeCiphertext envelope \<noteq> envelopeCiphertext envelope') \<and>
         importBackup env (\<lambda>k. Inr envelope) t = (Inr (), Drained records, t) \<and>
         importBackup env (\<lambda>k. Inr envelope') t = (Inr (), Drained records, t)"
proof -
  let ?mac = "hmacSha256 env macKey (iv @ cipher padded)"
  let ?mac' = "hmacSha256 env macKey (iv' @ cipher' padded)"
  have len: "length iv = IV_LENGTH" "length iv' = IV_LENGTH"
    using assms(5,6) by simp_all
  have tag: "length ?mac = MAC_LENGTH" "length ?mac' = MAC_LENGTH"
    using assms(16) by simp_all
  have "sink (iv @ cipher padded @ ?mac) = None"
    using assms(17,19) by simp
  with assms(1,4,5,7,10,12)
  have "exportBackup env sink s =
      (Inr (), Drained (iv @ cipher padded @ ?mac), s\<lparr>drawn := drawn s + IV_LENGTH\<rparr>)"
    by (intro exportBackup_succeeds [where aesKey = aesKey and cipher = cipher
          and recordStream = recordStream]) simp_all
  then have first: "exportBackup env sink s =
      (Inr (), Drained envelope, s\<lparr>drawn := drawn s + IV_LENGTH\<rparr>)"
    using assms(17) by simp
  have "sink' (iv' @ cipher' padded @ ?mac') = None"
    using assms(18,20) by simp
  with assms(2,4,6,8,10,12)
  have "exportBackup env sink' s' =
      (Inr (), Drained (iv' @ cipher' padded @ ?mac'), s'\<lparr>drawn := drawn s' + IV_LENGTH\<rparr>)"
    by (intro exportBackup_succeeds [where aesKey = aesKey and cipher = cipher'
          and recordStream = recordStream]) simp_all
  then have second: "exportBackup env sink' s' =
      (Inr (), Drained envelope', s'\<lparr>drawn := drawn s' + IV_LENGTH\<rparr>)"
    using assms(18) by simp
  have ivs: "take IV_LENGTH envelope = iv" "take IV_LENGTH envelope' = iv'"
    using len assms(17,18) by simp_all
  have bodies: "envelopeCiphertext envelope = cipher padded"
    "envelopeCiphertext envelope' = cipher' padded"
    using assms(17,18) envelopeCiphertext_parts [OF len(1) tag(1)]
      envelopeCiphertext_parts [OF len(2) tag(2)]
    by simp_all
  have differ: "iv \<noteq> iv' \<longrightarrow> envelopeCiphertext envelope \<noteq> envelopeCiphertext envelope'"
  proof
    assume "iv \<noteq> iv'"
    with assms(7,8)
    have "createCipheriv env aesKey iv = Inr cipher \<and>
        createCipheriv env aesKey iv' = Inr cipher' \<and> iv \<noteq> iv'"
      by simp
    moreover note assms(9) [THEN spec [where x = iv], THEN spec [where x = iv'],
        THEN spec [where x = cipher], THEN spec [where x = cipher'],
        THEN spec [where x = padded]]
    ultimately have "cipher padded \<noteq> cipher' padded"
      by (simp only: simp_thms)
    with bodies show "envelopeCiphertext envelope \<noteq> envelopeCiphertext envelope'"
      by simp
  qed
  have "importBackup env (\<lambda>k. Inr (iv @ cipher padded @ ?mac)) t =
      (Inr (), Drained records, t)"
    using assms(3,4) len(1) tag(1) refl assms(13,15,11,21)
    by (rule importBackup_succeeds)
  then have import: "importBackup env (\<lambda>k. Inr envelope) t = (Inr (), Drained records, t)"
    using assms(17) by simp
  have "importBackup env (\<lambda>k. Inr (iv' @ cipher' padded @ ?mac')) t =
      (Inr (), Drained records, t)"
    using assms(3,4) len(2) tag(2) refl assms(14,15,11,21)
    by (rule importBackup_succeeds)
  then have import': "importBackup env (\<lambda>k. Inr envelope') t = (Inr (), Drained records, t)"
    using assms(18) by simp
  from first second ivs differ import import' show ?thesis
    by (simp only: simp_thms)
qed

text \<open>Two successive exports of the test environment.\<close>

theorem fresh_iv_exports_witness:
  "exportBackup testEnv (\<lambda>written. None) idle =
     (Inr (), Drained testEnvelope, idle\<lparr>drawn := 16\<rparr>) \<and>
   exportBackup testEnv (\<lambda>written. None) (idle\<lparr>drawn := 16\<rparr>) =
     (Inr (), Drained testEnvelope2, idle\<lparr>drawn := 32\<rparr>) \<and>
   take IV_LENGTH testEnvelope \<noteq> take IV_LENGTH testEnvelope2 \<and>
   envelopeCiphertext testEnvelope \<noteq> envelopeCiphertext testEnvelope2 \<and>
   importBackup testEnv (\<lambda>k. Inr testEnvelope) idle = (Inr (), Drained [[7], [8], [9]], idle) \<and>
   importBackup testEnv (\<lambda>k. Inr testEnvelope2) idle = (Inr (), Drained [[7], [8], [9]], idle)"
proof -
  let ?next = "idle\<lparr>drawn := 16\<rparr>"
  let ?iv = "map (entropy testEnv) [drawn idle ..< drawn idle + IV_LENGTH]"
  let ?iv' = "map (entropy testEnv) [drawn ?next ..< drawn ?next + IV_LENGTH]"
  let ?cipher = "testCipher (replicate 32 1) ?iv"
  let ?cipher' = "testCipher (replicate 32 1) ?iv'"
  let ?padded = "appendPaddingStream testEnv (createGzip testEnv [7, 8, 9])"
  have free: "\<not> isRunning idle" and free': "\<not> isRunning ?next"
    by (simp_all add: idle_def)
  have keys: "getKeyMaterial testEnv = Inr (replicate 32 1, replicate 32 2)"
    by (simp add: testEnv_simps)
  have cipher: "createCipheriv testEnv (replicate 32 1) ?iv = Inr ?cipher"
    and cipher': "createCipheriv testEnv (replicate 32 1) ?iv' = Inr ?cipher'"
    by (simp_all add: testEnv_simps IV_LENGTH_def)
  have stream: "backupExportStream testEnv = Inr [7, 8, 9]"
    by (simp add: testEnv_simps)
  have records: "delimitedStream testEnv [7, 8, 9] = Inr [[7], [8], [9]]"
    by (simp add: testEnv_simps)
  have decipher: "createDecipheriv testEnv (replicate 32 1) ?iv (?cipher ?padded) = Inr ?padded"
    and decipher': "createDecipheriv testEnv (replicate 32 1) ?iv' (?cipher' ?padded) = Inr ?padded"
    by (simp_all add: testEnv_simps testDecipher_testCipher IV_LENGTH_def)
  have gunzip: "createGunzip testEnv ?padded = Inr [7, 8, 9]"
    by (simp add: testEnv_simps testGunzip_def)
  have tags: "\<forall>data. length (hmacSha256 testEnv (replicate 32 2) data) = MAC_LENGTH"
    by (simp add: testEnv_simps MAC_LENGTH_def)
  have sink: "(\<lambda>written. None :: error option) testEnvelope = None"
    and sink': "(\<lambda>written. None :: error option) testEnvelope2 = None"
    by simp_all
  have accepts: "backupImportStream testEnv [[7], [8], [9]] = None"
    by (simp add: testEnv_simps)
  have ivs: "?iv \<noteq> ?iv'"
    by code_simp
  note exports = fresh_iv_exports [OF free free' free keys refl refl cipher cipher'
      testEnv_iv_sensitive stream records refl decipher decipher' gunzip tags
      testEnv_export [symmetric] testEnv_export2 [symmetric] sink sink' accepts]
  have after: "idle\<lparr>drawn := drawn idle + IV_LENGTH\<rparr> = idle\<lparr>drawn := 16\<rparr>"
    "?next\<lparr>drawn := drawn ?next + IV_LENGTH\<rparr> = idle\<lparr>drawn := 32\<rparr>"
    by (simp_all add: idle_def IV_LENGTH_def)
  from exports have "take IV_LENGTH testEnvelope = ?iv" "take IV_LENGTH testEnvelope2 = ?iv'"
    by (simp_all only: simp_thms)
  with ivs have prefix: "take IV_LENGTH testEnvelope \<noteq> take IV_LENGTH testEnvelope2"
    by simp
  from exports ivs
  have bodies: "envelopeCiphertext testEnvelope \<noteq> envelopeCiphertext testEnvelope2"
    by (simp only: simp_thms)
  from exports after prefix bodies show ?thesis
    by (simp only: simp_thms)
qed

end
